theory Spec2Isabelle
  imports Complex_Main
begin

section \<open>The load tester: data model\<close>

text \<open>
  The page component (\<^verbatim>\<open>pages/index.js\<close>) keeps the form fields, the result buffer and
  the counters in React state, and the list of spawned workers in a ref. Each worker
  (\<^verbatim>\<open>public/worker.js\<close>) issues its share of the requests and posts one row per request.
  Numbers that are integers in the running program (ids, status codes, elapsed
  milliseconds, counters) are \<open>int\<close> or \<open>nat\<close>; the raw form fields are JavaScript
  numbers after \<^verbatim>\<open>Number(...)\<close> and are modelled further down.
\<close>

definition MAX_REQS_PER_SEC :: nat where
  "MAX_REQS_PER_SEC = 1000"

definition MAX_TOTAL_REQS :: nat where
  "MAX_TOTAL_REQS = 100000"

definition MAX_CONCURRENCY :: nat where
  "MAX_CONCURRENCY = 500"

text \<open>The payload of a \<^verbatim>\<open>row\<close> message, as the worker builds it.\<close>

record row =
  timestamp :: string
  workerId :: int
  statusCode :: "int option"
  timeMs :: int
  snippet :: string
  error :: bool

record summary =
  sent :: nat
  errors :: nat

text \<open>
  The commands the page posts to a worker. \<open>Start id url requests rps\<close> is the object
  \<^verbatim>\<open>{cmd: "start", id, url, requests, rps}\<close>.
\<close>

datatype worker_cmd = Start int string int int | Stop

text \<open>
  A JavaScript number: the value of \<^verbatim>\<open>Number(field)\<close> for a form field, which holds
  either a number or the text the operator typed. Finite values are real numbers
  (the arithmetic below is exact on the integers the page works with).
\<close>

datatype jsnum = NaN | NegInf | Val real | PosInf

text \<open>
  The state of the page between two events. \<open>concurrency\<close>, \<open>totalRequests\<close> and
  \<open>targetRps\<close> hold \<^verbatim>\<open>Number(...)\<close> of the respective field. \<open>workersRef\<close> is \<^verbatim>\<open>workersRef.current\<close>, a
  worker being named by its position in spawn order plus one; \<open>posted\<close> logs every
  \<^verbatim>\<open>postMessage\<close> to a worker, oldest first, so that the commands a worker received
  stay observable after the ref has been cleared.
\<close>

record home_state =
  url :: string
  concurrency :: jsnum
  totalRequests :: jsnum
  targetRps :: jsnum
  running :: bool
  rows :: "row list"
  summary :: summary
  workersRef :: "int list"
  nextId :: nat
  posted :: "(int \<times> worker_cmd) list"

section \<open>The aggregator: stopTest and pushRow\<close>

text \<open>
  \<^verbatim>\<open>stopTest\<close> posts \<^verbatim>\<open>{cmd: "stop"}\<close> to every worker of the ref (an exception of
  \<^verbatim>\<open>postMessage\<close> is swallowed), empties the ref and clears \<^verbatim>\<open>running\<close>.
\<close>

definition stopTest :: "home_state \<Rightarrow> home_state" where
  "stopTest st =
     st\<lparr> posted := posted st @ map (\<lambda>w. (w, Stop)) (workersRef st),
         workersRef := [],
         running := False \<rparr>"

text \<open>
  \<^verbatim>\<open>pushRow(r)\<close> runs three statements. The two state updates are functional updaters
  (\<^verbatim>\<open>setRows(prev => ...)\<close>, \<^verbatim>\<open>setSummary(s => ...)\<close>), so they act on the current
  buffer and counters. The third statement reads the variable \<^verbatim>\<open>summary\<close> of the
  enclosing component function, not the updater's argument: that is the value the
  closure was created with, the parameter \<open>seen\<close> of the model. Which value the page
  passes is fixed by the handler \<open>onmessage\<close> below.
\<close>

definition pushRow :: "summary \<Rightarrow> row \<Rightarrow> home_state \<Rightarrow> home_state" where
  "pushRow seen r st =
     (let st1 = st\<lparr> rows :=
                   (let next = r # rows st
                    in if length next > 2000 then butlast next else next) \<rparr>;
          st2 = st1\<lparr> summary :=
                   \<lparr> sent = sent (summary st1) + 1,
                     errors = errors (summary st1) + (if error r then 1 else 0) \<rparr> \<rparr>
      in if sent seen + 1 \<ge> MAX_TOTAL_REQS then stopTest st2 else st2)"

text \<open>
  A run delivers rows one at a time; each delivery carries the \<^verbatim>\<open>summary\<close> its handler
  reads together with the row.
\<close>

fun pushRows :: "(summary \<times> row) list \<Rightarrow> home_state \<Rightarrow> home_state" where
  "pushRows [] st = st"
| "pushRows ((seen, r) # ds) st = pushRows ds (pushRow seen r st)"

section \<open>The orchestrator: startTest\<close>

text \<open>\<^verbatim>\<open>x || 1\<close> on a number: \<^verbatim>\<open>NaN\<close> and zero are falsy.\<close>

definition or_one :: "jsnum \<Rightarrow> jsnum" where
  "or_one x = (if x = NaN \<or> x = Val 0 then Val 1 else x)"

text \<open>\<^verbatim>\<open>Math.max\<close> and \<^verbatim>\<open>Math.min\<close> of two numbers: \<^verbatim>\<open>NaN\<close> if either is.\<close>

fun Math_max :: "jsnum \<Rightarrow> jsnum \<Rightarrow> jsnum" where
  "Math_max NaN y = NaN"
| "Math_max x NaN = NaN"
| "Math_max PosInf y = PosInf"
| "Math_max x PosInf = PosInf"
| "Math_max NegInf y = y"
| "Math_max x NegInf = x"
| "Math_max (Val a) (Val b) = Val (max a b)"

fun Math_min :: "jsnum \<Rightarrow> jsnum \<Rightarrow> jsnum" where
  "Math_min NaN y = NaN"
| "Math_min x NaN = NaN"
| "Math_min NegInf y = NegInf"
| "Math_min x NegInf = NegInf"
| "Math_min PosInf y = y"
| "Math_min x PosInf = x"
| "Math_min (Val a) (Val b) = Val (min a b)"

text \<open>The comparison \<^verbatim>\<open>x < y\<close> of two numbers: false whenever either is \<^verbatim>\<open>NaN\<close>.\<close>

fun js_less :: "jsnum \<Rightarrow> jsnum \<Rightarrow> bool" where
  "js_less NaN y = False"
| "js_less x NaN = False"
| "js_less x NegInf = False"
| "js_less PosInf y = False"
| "js_less NegInf y = True"
| "js_less x PosInf = True"
| "js_less (Val a) (Val b) = (a < b)"

text \<open>
  \<^verbatim>\<open>Math.min(Math.max(1, Number(field) || 1), CAP)\<close>, the expression of lines 31 to 33
  with the cap as a parameter.
\<close>

definition sanitize :: "nat \<Rightarrow> jsnum \<Rightarrow> jsnum" where
  "sanitize cap x = Math_min (Math_max (Val 1) (or_one x)) (Val (real cap))"

text \<open>The per-worker rate and the estimate shown in the confirmation dialog.\<close>

definition perWorkerRps :: "real \<Rightarrow> real \<Rightarrow> int" where
  "perWorkerRps rps c = max 1 \<lfloor>rps / c\<rfloor>"

definition estimatedTotalRps :: "real \<Rightarrow> real \<Rightarrow> real" where
  "estimatedTotalRps rps c = real_of_int (perWorkerRps rps c) * c"

definition requestsPerWorker :: "real \<Rightarrow> real \<Rightarrow> int" where
  "requestsPerWorker trs c = \<lfloor>trs / c\<rfloor>"

text \<open>\<^verbatim>\<open>a % b\<close>: the remainder of the division truncated towards zero.\<close>

definition js_rem :: "real \<Rightarrow> real \<Rightarrow> real" where
  "js_rem a b = a - b * real_of_int (if 0 \<le> a / b then \<lfloor>a / b\<rfloor> else \<lceil>a / b\<rceil>)"

text \<open>
  The spawning loop \<^verbatim>\<open>for (let i = 0; i < c; i++)\<close>: worker \<open>i\<close> is created, sent its
  start command with \<^verbatim>\<open>id: i + 1\<close> and its share, and pushed to the ref.
\<close>

function spawnWorkers ::
  "real \<Rightarrow> string \<Rightarrow> int \<Rightarrow> real \<Rightarrow> int \<Rightarrow> nat \<Rightarrow> home_state \<Rightarrow> home_state" where
  "spawnWorkers c u perWorker remainder rps i st =
     (if real i < c then
        spawnWorkers c u perWorker remainder rps (Suc i)
          (st\<lparr> posted := posted st @
                  [(int i + 1,
                    Start (int i + 1) u (perWorker + (if real i < remainder then 1 else 0)) rps)],
               workersRef := workersRef st @ [int i + 1] \<rparr>)
      else st)"
  by pat_completeness auto
termination
proof (relation "measure (\<lambda>(c, u, perWorker, remainder, rps, i, st). nat \<lceil>c\<rceil> - i)")
  show "wf (measure (\<lambda>(c, u, perWorker, remainder, rps, i, st). nat \<lceil>c\<rceil> - i))"
    by simp
next
  fix c :: real and u :: string and perWorker :: int and remainder :: real
    and rps :: int and i :: nat and st :: home_state
  assume "real i < c"
  then have "i < nat \<lceil>c\<rceil>" by linarith
  then show "((c, u, perWorker, remainder, rps, Suc i,
        st\<lparr> posted := posted st @
                  [(int i + 1,
                    Start (int i + 1) u (perWorker + (if real i < remainder then 1 else 0)) rps)],
             workersRef := workersRef st @ [int i + 1] \<rparr>),
       (c, u, perWorker, remainder, rps, i, st))
      \<in> measure (\<lambda>(c, u, perWorker, remainder, rps, i, st). nat \<lceil>c\<rceil> - i)"
    by simp
qed

declare spawnWorkers.simps [simp del]

text \<open>
  What a call of \<^verbatim>\<open>startTest\<close> did: it alerted for want of a URL, returned because a
  run is active, returned because the operator declined the confirmation, or
  dispatched the workers. \<open>NotFinite\<close> stands for sanitised fields that are not finite
  numbers, where the JavaScript would go on with \<^verbatim>\<open>NaN\<close> or an infinity.
\<close>

datatype start_result = AlertEnterUrl | AlreadyRunning | Declined | Started | NotFinite

text \<open>\<open>confirmed\<close> is the operator's answer to the \<^verbatim>\<open>confirm\<close> dialog.\<close>

definition startTest :: "bool \<Rightarrow> home_state \<Rightarrow> start_result \<times> home_state" where
  "startTest confirmed st =
     (if url st = [] then (AlertEnterUrl, st)
      else if running st then (AlreadyRunning, st)
      else
        case (sanitize MAX_CONCURRENCY (concurrency st),
              sanitize MAX_TOTAL_REQS (totalRequests st),
              sanitize MAX_REQS_PER_SEC (targetRps st)) of
          (Val c, Val trs, Val rps) \<Rightarrow>
            if \<not> confirmed then (Declined, st)
            else
              (Started,
               spawnWorkers c (url st) (requestsPerWorker trs c) (js_rem trs c)
                 (perWorkerRps rps c) 0
                 (st\<lparr> rows := [], nextId := 0, summary := \<lparr> sent = 0, errors = 0 \<rparr>,
                      running := True, workersRef := [] \<rparr>))
        | _ \<Rightarrow> (NotFinite, st))"

text \<open>The request counts of the start commands in a message log, in posting order.\<close>

fun start_requests :: "(int \<times> worker_cmd) list \<Rightarrow> int list" where
  "start_requests [] = []"
| "start_requests ((w, Start i u n r) # ms) = n # start_requests ms"
| "start_requests ((w, Stop) # ms) = start_requests ms"

text \<open>The rates of the start commands in a message log, in posting order.\<close>

fun start_rates :: "(int \<times> worker_cmd) list \<Rightarrow> int list" where
  "start_rates [] = []"
| "start_rates ((w, Start i u n r) # ms) = r # start_rates ms"
| "start_rates ((w, Stop) # ms) = start_rates ms"

section \<open>CSV export\<close>

text \<open>
  A template literal renders an integer in decimal, with a leading minus sign when
  it is negative (JavaScript does so for every integer of magnitude below \<open>10\<^sup>2\<^sup>1\<close>,
  far above any id, status code or number of milliseconds). Texts are lists of
  characters; \<^verbatim>\<open>slice(0, 300)\<close> is \<open>take 300\<close>.
\<close>

definition digit_char :: "nat \<Rightarrow> char" where
  "digit_char d = ''0123456789'' ! d"

fun show_nat :: "nat \<Rightarrow> string" where
  "show_nat n =
     (if n < 10 then [digit_char n] else show_nat (n div 10) @ [digit_char (n mod 10)])"

declare show_nat.simps [simp del]

definition show_int :: "int \<Rightarrow> string" where
  "show_int i = (if i < 0 then CHR ''-'' # show_nat (nat (- i)) else show_nat (nat i))"

text \<open>\<^verbatim>\<open>.replace(/"/g, '""')\<close>: every double quote is doubled.\<close>

fun escape_quotes :: "string \<Rightarrow> string" where
  "escape_quotes [] = []"
| "escape_quotes (c # cs) =
     (if c = CHR 0x22 then CHR 0x22 # CHR 0x22 # escape_quotes cs else c # escape_quotes cs)"

text \<open>
  \<^verbatim>\<open>${r.statusCode || ""}\<close> and \<^verbatim>\<open>${r.timeMs || ""}\<close>: \<^verbatim>\<open>null\<close> and \<^verbatim>\<open>0\<close> are falsy and
  render as the empty text.
\<close>

definition statusCode_text :: "int option \<Rightarrow> string" where
  "statusCode_text s = (case s of None \<Rightarrow> [] | Some n \<Rightarrow> if n = 0 then [] else show_int n)"

definition timeMs_text :: "int \<Rightarrow> string" where
  "timeMs_text t = (if t = 0 then [] else show_int t)"

definition csv_header :: string where
  "csv_header = ''timestamp,workerId,statusCode,timeMs,snippet,error''"

text \<open>The line of one row (the template literal of line 104).\<close>

definition csv_line :: "row \<Rightarrow> string" where
  "csv_line r =
     timestamp r @ '','' @ show_int (workerId r) @ '','' @ statusCode_text (statusCode r)
       @ '','' @ timeMs_text (timeMs r) @ '','' @ [CHR 0x22] @ escape_quotes (snippet r)
       @ [CHR 0x22] @ '','' @ (if error r then ''1'' else ''0'')"

text \<open>\<^verbatim>\<open>Array.prototype.join\<close>.\<close>

fun join :: "string \<Rightarrow> string list \<Rightarrow> string" where
  "join sep [] = []"
| "join sep [x] = x"
| "join sep (x # y # ys) = x @ sep @ join sep (y # ys)"

text \<open>
  \<^verbatim>\<open>exportCSV\<close> builds the text of the file from the buffer, oldest row first, and
  hands it to the browser as a download; the model returns the text.
\<close>

definition exportCSV :: "row list \<Rightarrow> string" where
  "exportCSV rs = join [CHR 0x0A] ([csv_header] @ map csv_line (rev rs))"

subsection \<open>Reading the file back\<close>

text \<open>
  The round-trip property of the export speaks of parsing the file again. The
  repository has no CSV reader; \<open>reparse_csv\<close> is the reference reader the property is
  checked against (RFC 4180: records end at a line feed outside quotes, fields at a
  comma outside quotes, a field that opens with a double quote is quoted and a
  doubled quote inside it stands for one quote).
\<close>

datatype csv_mode = Plain | Quoted | QuoteEnd

fun csv_scan ::
  "csv_mode \<Rightarrow> string \<Rightarrow> string list \<Rightarrow> string list list \<Rightarrow> string \<Rightarrow>
     string list list option" where
  "csv_scan Quoted fld flds recs [] = None"
| "csv_scan Plain fld flds recs [] = Some (recs @ [flds @ [fld]])"
| "csv_scan QuoteEnd fld flds recs [] = Some (recs @ [flds @ [fld]])"
| "csv_scan Plain fld flds recs (c # cs) =
     (if c = CHR '','' then csv_scan Plain [] (flds @ [fld]) recs cs
      else if c = CHR 0x0A then csv_scan Plain [] [] (recs @ [flds @ [fld]]) cs
      else if c = CHR 0x22 \<and> fld = [] then csv_scan Quoted [] flds recs cs
      else csv_scan Plain (fld @ [c]) flds recs cs)"
| "csv_scan Quoted fld flds recs (c # cs) =
     (if c = CHR 0x22 then csv_scan QuoteEnd fld flds recs cs
      else csv_scan Quoted (fld @ [c]) flds recs cs)"
| "csv_scan QuoteEnd fld flds recs (c # cs) =
     (if c = CHR 0x22 then csv_scan Quoted (fld @ [c]) flds recs cs
      else if c = CHR '','' then csv_scan Plain [] (flds @ [fld]) recs cs
      else if c = CHR 0x0A then csv_scan Plain [] [] (recs @ [flds @ [fld]]) cs
      else None)"

definition digit_val :: "char \<Rightarrow> nat option" where
  "digit_val c = map_of (zip ''0123456789'' [0, 1, 2, 3, 4, 5, 6, 7, 8, 9]) c"

fun read_digits :: "nat \<Rightarrow> string \<Rightarrow> nat option" where
  "read_digits acc [] = Some acc"
| "read_digits acc (c # cs) =
     (case digit_val c of None \<Rightarrow> None | Some d \<Rightarrow> read_digits (10 * acc + d) cs)"

definition read_nat :: "string \<Rightarrow> nat option" where
  "read_nat s = (if s = [] then None else read_digits 0 s)"

definition read_int :: "string \<Rightarrow> int option" where
  "read_int s =
     (case s of
        [] \<Rightarrow> None
      | c # cs \<Rightarrow>
          if c = CHR ''-'' then map_option (\<lambda>n. - int n) (read_nat cs)
          else map_option int (read_nat s))"

definition read_bool :: "string \<Rightarrow> bool option" where
  "read_bool s = (if s = ''1'' then Some True else if s = ''0'' then Some False else None)"

text \<open>An empty status field reads as \<^verbatim>\<open>null\<close>; every other field must be present.\<close>

definition read_row :: "string list \<Rightarrow> row option" where
  "read_row fs =
     (case fs of
        [ts, wid, sc, tm, sn, er] \<Rightarrow>
          (case (read_int wid,
                 if sc = [] then Some None else map_option Some (read_int sc),
                 read_int tm, read_bool er) of
             (Some w, Some s, Some t, Some e) \<Rightarrow>
               Some \<lparr> timestamp = ts, workerId = w, statusCode = s, timeMs = t,
                      snippet = sn, error = e \<rparr>
           | _ \<Rightarrow> None)
      | _ \<Rightarrow> None)"

fun read_rows :: "string list list \<Rightarrow> row list option" where
  "read_rows [] = Some []"
| "read_rows (fs # fss) =
     (case read_row fs of
        None \<Rightarrow> None
      | Some r \<Rightarrow> (case read_rows fss of None \<Rightarrow> None | Some rs \<Rightarrow> Some (r # rs)))"

definition reparse_csv :: "string \<Rightarrow> row list option" where
  "reparse_csv content =
     (case csv_scan Plain [] [] [] content of
        None \<Rightarrow> None
      | Some [] \<Rightarrow> None
      | Some (h # recs) \<Rightarrow> read_rows recs)"

text \<open>A text that can stand in an unquoted field: no comma, line feed or double quote.\<close>

definition plain_text :: "string \<Rightarrow> bool" where
  "plain_text s = list_all (\<lambda>c. c \<noteq> CHR '','' \<and> c \<noteq> CHR 0x0A \<and> c \<noteq> CHR 0x22) s"

text \<open>The six fields of the line of a row, as the reader should find them.\<close>

definition row_fields :: "row \<Rightarrow> string list" where
  "row_fields r =
     [timestamp r, show_int (workerId r), statusCode_text (statusCode r),
      timeMs_text (timeMs r), snippet r, if error r then ''1'' else ''0'']"

section \<open>The worker\<close>

text \<open>
  What one iteration of the worker's loop observes of its environment: the value of
  the flag \<^verbatim>\<open>stopped\<close> at the top of the iteration (the stop handler may have run
  while the previous iteration was waiting), the clock at the start, how the fetch
  ended, the clock right after it, the time stamp of the row, and the clock after
  the row was posted.
\<close>

datatype fetch_outcome =
    Responded int "string option"
  | Failed "string option"

record iteration =
  stopped_now :: bool
  t_start :: int
  outcome :: fetch_outcome
  t_end :: int
  iso_stamp :: string
  t_loop :: int

datatype worker_event =
    RowEvent row
  | DoneEvent int nat
  | StoppedEvent
  | Sleep int

definition intervalMs :: "int \<Rightarrow> int" where
  "intervalMs rps = max 1 (1000 div max 1 rps)"

text \<open>
  The row of an iteration. \<open>Responded status body\<close> is a response whose text was read
  (\<open>Some text\<close>) or could not be (\<open>None\<close>); \<open>Failed msg\<close> is a rejected fetch, \<open>msg\<close> the
  error's message if it has one.
\<close>

definition make_row :: "int \<Rightarrow> iteration \<Rightarrow> row" where
  "make_row wid it =
     (case outcome it of
        Responded status body \<Rightarrow>
          \<lparr> timestamp = iso_stamp it, workerId = wid, statusCode = Some status,
            timeMs = t_end it - t_start it,
            snippet = (case body of Some text \<Rightarrow> take 300 text | None \<Rightarrow> ''[no-text]''),
            error = (status \<ge> 400) \<rparr>
      | Failed msg \<Rightarrow>
          \<lparr> timestamp = iso_stamp it, workerId = wid, statusCode = None,
            timeMs = t_end it - t_start it,
            snippet = (case msg of
                         Some m \<Rightarrow> if m \<noteq> [] then take 300 m else ''error''
                       | None \<Rightarrow> ''error''),
            error = True \<rparr>)"

text \<open>Lines 58 to 60: the pause after a request, as the sleeps it performs.\<close>

definition pacing :: "int \<Rightarrow> int \<Rightarrow> int \<Rightarrow> worker_event list" where
  "pacing interval start now =
     (let elapsedLoop = now - start; wait = interval - elapsedLoop
      in if wait > 0 then [Sleep wait] else [])"

text \<open>Line 62: \<^verbatim>\<open>if (sent % 50 === 0) await sleep(0)\<close>.\<close>

definition yield_every_50 :: "nat \<Rightarrow> worker_event list" where
  "yield_every_50 n = (if n mod 50 = 0 then [Sleep 0] else [])"

text \<open>
  The loop of the start command, from iteration \<open>i\<close> with \<open>n\<close> rows sent so far, as the
  list of what the worker posts and sleeps; \<open>env i\<close> is what iteration \<open>i\<close> observes.
\<close>

function worker_loop ::
  "(nat \<Rightarrow> iteration) \<Rightarrow> int \<Rightarrow> int \<Rightarrow> int \<Rightarrow> nat \<Rightarrow> nat \<Rightarrow> worker_event list" where
  "worker_loop env wid interval requests i n =
     (if int i < requests then
        if stopped_now (env i) then [DoneEvent wid n]
        else
          RowEvent (make_row wid (env i))
            # pacing interval (t_start (env i)) (t_loop (env i))
            @ yield_every_50 (Suc n)
            @ worker_loop env wid interval requests (Suc i) (Suc n)
      else [DoneEvent wid n])"
  by pat_completeness auto
termination
  by (relation "measure (\<lambda>(env, wid, interval, requests, i, n). nat requests - i)") auto

declare worker_loop.simps [simp del]

text \<open>The worker's message handler.\<close>

fun worker_onmessage :: "(nat \<Rightarrow> iteration) \<Rightarrow> worker_cmd \<Rightarrow> worker_event list" where
  "worker_onmessage env (Start wid u requests rps) =
     worker_loop env wid (intervalMs rps) requests 0 0"
| "worker_onmessage env Stop = [StoppedEvent]"

text \<open>Observations of a trace: the messages posted, and the time slept.\<close>

fun posted_events :: "worker_event list \<Rightarrow> worker_event list" where
  "posted_events [] = []"
| "posted_events (Sleep ms # es) = posted_events es"
| "posted_events (e # es) = e # posted_events es"

fun slept_ms :: "worker_event list \<Rightarrow> int" where
  "slept_ms [] = 0"
| "slept_ms (Sleep ms # es) = ms + slept_ms es"
| "slept_ms (e # es) = slept_ms es"

subsection \<open>The page's handler for worker messages\<close>



section \<open>Example data\<close>

text \<open>Concrete rows and page states on which the results below are exercised.\<close>

definition ok_row :: row where
  "ok_row = \<lparr> timestamp = ''2024-05-01T10:00:00.000Z'', workerId = 1, statusCode = Some 200,
              timeMs = 12, snippet = ''ok'', error = False \<rparr>"

definition failed_row :: row where
  "failed_row = \<lparr> timestamp = ''2024-05-01T10:00:01.000Z'', workerId = 2, statusCode = None,
              timeMs = 3, snippet = ''Failed to fetch'', error = True \<rparr>"

definition idle_state :: home_state where
  "idle_state = \<lparr> url = ''https://staging.example.com/'', concurrency = Val 10,
       totalRequests = Val 1000, targetRps = Val 200, running = False, rows = [],
       summary = \<lparr> sent = 0, errors = 0 \<rparr>, workersRef = [], nextId = 0, posted = [] \<rparr>"

definition full_state :: home_state where
  "full_state = idle_state \<lparr> running := True, rows := replicate 2000 ok_row,
       summary := \<lparr> sent = 2000, errors = 0 \<rparr>, workersRef := [1, 2] \<rparr>"

definition wild_state :: home_state where
  "wild_state = idle_state \<lparr> concurrency := Val 100000, totalRequests := Val (- 5),
       targetRps := NaN \<rparr>"

definition zero_state :: home_state where
  "zero_state = idle_state \<lparr> concurrency := Val 0, totalRequests := NaN,
       targetRps := Val 0 \<rparr>"

text \<open>An environment in which every fetch is rejected with a network error.\<close>

definition failing_env :: "nat \<Rightarrow> iteration" where
  "failing_env i =
     \<lparr> stopped_now = False, t_start = 1000 * int i, outcome = Failed (Some ''Failed to fetch''),
       t_end = 1000 * int i + 3, iso_stamp = ''2024-05-01T10:00:00.000Z'',
       t_loop = 1000 * int i + 4 \<rparr>"

text \<open>The row worker 7 posts for each iteration of that environment.\<close>

definition net_error_row :: row where
  "net_error_row = \<lparr> timestamp = ''2024-05-01T10:00:00.000Z'', workerId = 7, statusCode = None,
       timeMs = 3, snippet = ''Failed to fetch'', error = True \<rparr>"

text \<open>
  Rows for the export: one whose request took less than a millisecond, one whose
  snippet holds double quotes and a comma, and the failed row with a status of 0 in
  place of \<^verbatim>\<open>null\<close>.
\<close>

definition zero_ms_row :: row where
  "zero_ms_row = \<lparr> timestamp = ''2024-05-01T10:00:02.000Z'', workerId = 1, statusCode = Some 200,
       timeMs = 0, snippet = ''ok'', error = False \<rparr>"

definition quoted_row :: row where
  "quoted_row = \<lparr> timestamp = ''2024-05-01T10:00:03.000Z'', workerId = 12, statusCode = Some 404,
       timeMs = 35, snippet = ''{'' @ [CHR 0x22] @ ''a'' @ [CHR 0x22] @ '': '' @ [CHR 0x22] @ ''b,c''
         @ [CHR 0x22] @ ''}'', error = True \<rparr>"

definition status_zero_row :: row where
  "status_zero_row = failed_row \<lparr> statusCode := Some 0 \<rparr>"



section \<open>Buffer and counters\<close>

lemma rows_pushRow:
  "rows (pushRow seen r st) =
     (if length (rows st) \<ge> 2000 then r # butlast (rows st) else r # rows st)"
  by (simp add: pushRow_def stopTest_def Let_def)

lemma summary_pushRow:
  "summary (pushRow seen r st) =
     \<lparr> sent = sent (summary st) + 1,
       errors = errors (summary st) + (if error r then 1 else 0) \<rparr>"
  by (simp add: pushRow_def stopTest_def Let_def)

lemma rows_pushRow_take:
  assumes "length (rows st) \<le> 2000"
  shows "rows (pushRow seen r st) = take 2000 (r # rows st)"
proof (cases "length (rows st) = 2000")
  case True
  then have "rows st \<noteq> []" by auto
  then have "take 1999 (rows st) = butlast (rows st)"
    using True by (simp add: butlast_conv_take)
  then show ?thesis using True
    by (simp add: rows_pushRow take_Cons')
next
  case False
  with assms have "length (rows st) < 2000" by simp
  then show ?thesis by (simp add: rows_pushRow take_Cons')
qed

lemma take_append_take:
  "take n (xs @ take n ys) = take n (xs @ ys)"
proof -
  have "min (n - length xs) n = n - length xs" by simp
  then show ?thesis by simp
qed

lemma rows_pushRows_take:
  "length (rows st) \<le> 2000 \<Longrightarrow>
   rows (pushRows ds st) = take 2000 (rev (map snd ds) @ rows st)"
proof (induction ds arbitrary: st)
  case Nil
  then show ?case by simp
next
  case (Cons d ds)
  obtain seen r where d: "d = (seen, r)" by (cases d)
  have step: "rows (pushRow seen r st) = take 2000 (r # rows st)"
    using Cons.prems by (rule rows_pushRow_take)
  then have len: "length (rows (pushRow seen r st)) \<le> 2000" by simp
  have "rows (pushRows (d # ds) st) = take 2000 (rev (map snd ds) @ take 2000 (r # rows st))"
    using Cons.IH [OF len] step d by simp
  also have "\<dots> = take 2000 (rev (map snd ds) @ r # rows st)"
    by (rule take_append_take)
  finally show ?case using d by simp
qed

lemma summary_pushRows:
  "summary (pushRows ds st) =
     \<lparr> sent = sent (summary st) + length ds,
       errors = errors (summary st) + length (filter error (map snd ds)) \<rparr>"
proof (induction ds arbitrary: st)
  case Nil
  then show ?case by simp
next
  case (Cons d ds)
  obtain seen r where d: "d = (seen, r)" by (cases d)
  show ?case using Cons.IH [of "pushRow seen r st"] d
    by (simp add: summary_pushRow)
qed

lemma pushRows_append: "pushRows (ds @ es) st = pushRows es (pushRows ds st)"
  by (induction ds arbitrary: st) auto

text \<open>
  Claim C4. Starting from a buffer of at most 2000 rows (the buffer is empty when a
  run starts), after any sequence of \<^verbatim>\<open>pushRow\<close> calls the buffer holds at most 2000
  rows: it is the 2000 most recent rows, most recent first. After at least one call
  its head is the row inserted last, and a single call on a full buffer drops the
  last (oldest) row.
\<close>

theorem pushRow_buffer_capped_newest_first:
  "length (rows st) \<le> 2000 \<longrightarrow>
     length (rows (pushRows ds st)) \<le> 2000
     \<and> rows (pushRows ds st) = take 2000 (rev (map snd ds) @ rows st)
     \<and> (ds \<noteq> [] \<longrightarrow> rows (pushRows ds st) \<noteq> [] \<and> hd (rows (pushRows ds st)) = snd (last ds))
     \<and> rows (pushRow seen r st) =
         (if length (rows st) < 2000 then r # rows st else r # butlast (rows st))"
proof
  assume len: "length (rows st) \<le> 2000"
  have all: "rows (pushRows ds st) = take 2000 (rev (map snd ds) @ rows st)"
    using len by (rule rows_pushRows_take)
  have bound: "length (rows (pushRows ds st)) \<le> 2000"
    by (simp add: all)
  have newest: "rows (pushRows ds st) \<noteq> [] \<and> hd (rows (pushRows ds st)) = snd (last ds)"
    if "ds \<noteq> []"
  proof -
    from that obtain es d where ds: "ds = es @ [d]"
      by (cases ds rule: rev_cases) auto
    then have "rows (pushRows ds st) = take 2000 (snd d # rev (map snd es) @ rows st)"
      using all by simp
    then have "rows (pushRows ds st) = snd d # take 1999 (rev (map snd es) @ rows st)"
      by (simp add: take_Cons')
    then show ?thesis using ds by simp
  qed
  have one: "rows (pushRow seen r st) =
         (if length (rows st) < 2000 then r # rows st else r # butlast (rows st))"
    using len by (simp add: rows_pushRow)
  from all bound newest one show "length (rows (pushRows ds st)) \<le> 2000
     \<and> rows (pushRows ds st) = take 2000 (rev (map snd ds) @ rows st)
     \<and> (ds \<noteq> [] \<longrightarrow> rows (pushRows ds st) \<noteq> [] \<and> hd (rows (pushRows ds st)) = snd (last ds))
     \<and> rows (pushRow seen r st) =
         (if length (rows st) < 2000 then r # rows st else r # butlast (rows st))"
    by blast
qed

text \<open>
  The same on a full buffer of 2000 rows: one more row goes to the head and the
  oldest one leaves.
\<close>

theorem pushRow_buffer_capped_newest_first_witness:
  "length (rows full_state) \<le> 2000
   \<and> length (rows (pushRows [(summary full_state, failed_row)] full_state)) \<le> 2000
   \<and> hd (rows (pushRows [(summary full_state, failed_row)] full_state)) = failed_row
   \<and> rows (pushRow (summary full_state) failed_row full_state) = failed_row # replicate 1999 ok_row"
proof -
  have len: "length (rows full_state) \<le> 2000"
    by (simp add: full_state_def)
  have "butlast (replicate 2000 ok_row) = replicate 1999 ok_row"
    by (simp add: butlast_conv_take)
  then show ?thesis
    using len
      pushRow_buffer_capped_newest_first
        [of full_state "[(summary full_state, failed_row)]" "summary full_state" failed_row]
    by (simp add: full_state_def)
qed


lemma spawnWorkers_keeps:
  "rows (spawnWorkers c u p rm rps i st) = rows st
   \<and> summary (spawnWorkers c u p rm rps i st) = summary st
   \<and> running (spawnWorkers c u p rm rps i st) = running st"
proof (induction c u p rm rps i st rule: spawnWorkers.induct)
  case (1 c u p rm rps i st)
  show ?case
  proof (cases "real i < c")
    case True
    with "1.IH" show ?thesis by (subst (1 2 3) spawnWorkers.simps) simp
  next
    case False
    then show ?thesis by (subst (1 2 3) spawnWorkers.simps) simp
  qed
qed

lemma startTest_Started_resets:
  assumes "startTest confirmed st0 = (Started, st)"
  shows "rows st = [] \<and> summary st = \<lparr> sent = 0, errors = 0 \<rparr> \<and> running st"
  using assms
  by (auto simp add: startTest_def spawnWorkers_keeps
      split: if_splits jsnum.splits prod.splits)

lemma sanitize_idle:
  "sanitize MAX_CONCURRENCY (Val 10) = Val 10"
  "sanitize MAX_TOTAL_REQS (Val 1000) = Val 1000"
  "sanitize MAX_REQS_PER_SEC (Val 200) = Val 200"
  by (simp_all add: sanitize_def or_one_def MAX_CONCURRENCY_def MAX_TOTAL_REQS_def
      MAX_REQS_PER_SEC_def)

lemma startTest_idle_Started: "fst (startTest True idle_state) = Started"
  by (simp add: startTest_def idle_state_def sanitize_idle)

text \<open>
  Claim C5. After any sequence of \<^verbatim>\<open>pushRow\<close> calls \<open>sent\<close> has grown by the number of
  calls and \<open>errors\<close> by the number of rows with \<open>error\<close> set, whatever the buffer
  holds or has dropped; both counters only grow as further rows arrive; and in a run
  dispatched by \<^verbatim>\<open>startTest\<close>, which resets them to zero, they equal those numbers.
\<close>

theorem pushRow_counters_exact_monotone:
  "sent (summary (pushRows ds st)) = sent (summary st) + length ds
   \<and> errors (summary (pushRows ds st))
       = errors (summary st) + length (filter error (map snd ds))
   \<and> sent (summary (pushRows ds st)) \<le> sent (summary (pushRows (ds @ es) st))
   \<and> errors (summary (pushRows ds st)) \<le> errors (summary (pushRows (ds @ es) st))
   \<and> (startTest confirmed st0 = (Started, st) \<longrightarrow>
        sent (summary (pushRows ds st)) = length ds
        \<and> errors (summary (pushRows ds st)) = length (filter error (map snd ds)))"
proof -
  have counts: "summary (pushRows xs s) =
     \<lparr> sent = sent (summary s) + length xs,
       errors = errors (summary s) + length (filter error (map snd xs)) \<rparr>" for xs s
    by (rule summary_pushRows)
  have later: "pushRows (ds @ es) st = pushRows es (pushRows ds st)"
    by (rule pushRows_append)
  have zero: "summary st = \<lparr> sent = 0, errors = 0 \<rparr>"
    if "startTest confirmed st0 = (Started, st)"
    using startTest_Started_resets [OF that] by simp
  show ?thesis
    by (simp add: counts later zero)
qed

text \<open>
  A run started from the idle page, with one good and one failed row.
\<close>

theorem pushRow_counters_exact_monotone_witness:
  "startTest True idle_state = (Started, snd (startTest True idle_state))
   \<and> sent (summary (pushRows [(summary idle_state, ok_row), (summary idle_state, failed_row)]
        (snd (startTest True idle_state)))) = 2
   \<and> errors (summary (pushRows [(summary idle_state, ok_row), (summary idle_state, failed_row)]
        (snd (startTest True idle_state)))) = 1"
proof -
  have started: "startTest True idle_state = (Started, snd (startTest True idle_state))"
    using startTest_idle_Started by (simp add: prod_eq_iff)
  have "error failed_row" and "\<not> error ok_row"
    by (simp_all add: failed_row_def ok_row_def)
  then show ?thesis
    using started
      pushRow_counters_exact_monotone
        [of "[(summary idle_state, ok_row), (summary idle_state, failed_row)]"
            "snd (startTest True idle_state)" "[]" True idle_state]
    by simp
qed

section \<open>Rows and the stop\<close>
















section \<open>Sanitising and partitioning\<close>

lemma sanitize_cases:
  "sanitize cap x =
     (case x of
        NaN \<Rightarrow> Val (min 1 (real cap))
      | NegInf \<Rightarrow> Val (min 1 (real cap))
      | PosInf \<Rightarrow> Val (real cap)
      | Val a \<Rightarrow> if a = 0 then Val (min 1 (real cap)) else Val (min (max 1 a) (real cap)))"
  by (cases x) (simp_all add: sanitize_def or_one_def)

lemma sanitize_Val:
  assumes "1 \<le> cap"
  shows "\<exists>v. sanitize cap x = Val v \<and> 1 \<le> v \<and> v \<le> real cap"
  using assms by (cases x) (auto simp add: sanitize_cases)

lemma sanitize_clamp:
  "1 \<le> cap \<longrightarrow>
     (\<exists>v. sanitize cap x = Val v \<and> 1 \<le> v \<and> v \<le> real cap)
     \<and> (js_less (Val (real cap)) x \<longrightarrow> sanitize cap x = Val (real cap))
     \<and> (js_less x (Val 1) \<longrightarrow> sanitize cap x = Val 1)
     \<and> (1 \<le> a \<and> a \<le> real cap \<longrightarrow> sanitize cap (Val a) = Val a)"
proof
  assume cap: "1 \<le> cap"
  have above: "sanitize cap x = Val (real cap)" if "js_less (Val (real cap)) x"
    using that cap by (cases x) (auto simp add: sanitize_cases)
  have below: "sanitize cap x = Val 1" if "js_less x (Val 1)"
    using that cap by (cases x) (auto simp add: sanitize_cases)
  have inside: "sanitize cap (Val a) = Val a" if "1 \<le> a \<and> a \<le> real cap"
    using that by (auto simp add: sanitize_cases)
  from sanitize_Val [OF cap] above below inside
  show "(\<exists>v. sanitize cap x = Val v \<and> 1 \<le> v \<and> v \<le> real cap)
     \<and> (js_less (Val (real cap)) x \<longrightarrow> sanitize cap x = Val (real cap))
     \<and> (js_less x (Val 1) \<longrightarrow> sanitize cap x = Val 1)
     \<and> (1 \<le> a \<and> a \<le> real cap \<longrightarrow> sanitize cap (Val a) = Val a)"
    by blast
qed


lemma real_less_ceiling_nat: "real i < c \<longleftrightarrow> i < nat \<lceil>c\<rceil>"
  by linarith

lemma spawnWorkers_posted:
  "posted (spawnWorkers c u p rm rps i st) =
     posted st @ map (\<lambda>k. (int k + 1, Start (int k + 1) u (p + (if real k < rm then 1 else 0)) rps))
                   [i..<nat \<lceil>c\<rceil>]"
proof (induction c u p rm rps i st rule: spawnWorkers.induct)
  case (1 c u p rm rps i st)
  show ?case
  proof (cases "real i < c")
    case True
    then have "i < nat \<lceil>c\<rceil>" by (simp add: real_less_ceiling_nat)
    then have "[i..<nat \<lceil>c\<rceil>] = i # [Suc i..<nat \<lceil>c\<rceil>]"
      by (rule upt_conv_Cons)
    with True "1.IH" show ?thesis
      by (subst spawnWorkers.simps) simp
  next
    case False
    then have "\<not> i < nat \<lceil>c\<rceil>" by (simp add: real_less_ceiling_nat)
    with False show ?thesis
      by (subst spawnWorkers.simps) simp
  qed
qed

lemma start_requests_append:
  "start_requests (xs @ ys) = start_requests xs @ start_requests ys"
  by (induction xs rule: start_requests.induct) simp_all

lemma start_requests_map_Start:
  "start_requests (map (\<lambda>k. (w k, Start (a k) u (f k) rps)) ks) = map f ks"
  by (induction ks) simp_all

lemma requestsPerWorker_nat:
  "requestsPerWorker (real T) (real C) = int (T div C)"
  by (simp add: requestsPerWorker_def floor_divide_of_nat_eq)

lemma js_rem_nat:
  assumes "1 \<le> C"
  shows "js_rem (real T) (real C) = real (T mod C)"
proof -
  have "\<lfloor>real T / real C\<rfloor> = int (T div C)"
    by (simp add: floor_divide_of_nat_eq)
  moreover have "real T = real C * real (T div C) + real (T mod C)"
    by (metis mult_div_mod_eq of_nat_add of_nat_mult)
  ultimately show ?thesis
    by (simp add: js_rem_def)
qed

lemma sum_list_indicator_upt:
  "sum_list (map (\<lambda>k. if k < r then (1::int) else 0) [0..<n]) = int (min r n)"
  by (induction n) auto

lemma sum_list_shares:
  assumes "r \<le> n"
  shows "sum_list (map (\<lambda>k. q + (if k < r then (1::int) else 0)) [0..<n]) = q * int n + int r"
proof -
  have "sum_list (map (\<lambda>k. q + (if k < r then (1::int) else 0)) [0..<n])
      = sum_list (map (\<lambda>k. q) [0..<n]) + sum_list (map (\<lambda>k. if k < r then (1::int) else 0) [0..<n])"
    by (simp add: sum_list_addf)
  also have "\<dots> = q * int n + int (min r n)"
    by (simp add: sum_list_indicator_upt sum_list_triv)
  finally show ?thesis using assms by (simp add: min_def)
qed

text \<open>
  Claim C3. For integers \<open>T \<ge> 1\<close> (total requests) and \<open>C \<ge> 1\<close> (concurrency) the
  spawning loop posts \<open>C\<close> start commands; the command of index \<open>i\<close> (0-based) carries
  \<open>T div C\<close> requests plus one if \<open>i < T mod C\<close>. The counts add up to \<open>T\<close> and any two
  of them differ by at most 1.
\<close>

theorem spawnWorkers_partition_exact_balanced:
  "1 \<le> T \<and> 1 \<le> C \<longrightarrow>
     (\<exists>new.
        posted (spawnWorkers (real C) u (requestsPerWorker (real T) (real C))
                  (js_rem (real T) (real C)) rps 0 st) = posted st @ new
        \<and> start_requests new
            = map (\<lambda>i. int (T div C) + (if i < T mod C then 1 else 0)) [0..<C]
        \<and> length (start_requests new) = C
        \<and> sum_list (start_requests new) = int T
        \<and> (\<forall>a \<in> set (start_requests new). \<forall>b \<in> set (start_requests new). a - b \<le> 1))"
proof
  assume pos: "1 \<le> T \<and> 1 \<le> C"
  define new where "new = map (\<lambda>k. (int k + 1,
        Start (int k + 1) u (requestsPerWorker (real T) (real C)
          + (if real k < js_rem (real T) (real C) then 1 else 0)) rps)) [0..<C]"
  have log: "posted (spawnWorkers (real C) u (requestsPerWorker (real T) (real C))
                  (js_rem (real T) (real C)) rps 0 st) = posted st @ new"
    by (simp add: spawnWorkers_posted new_def)
  have "start_requests new = map (\<lambda>k. requestsPerWorker (real T) (real C)
          + (if real k < js_rem (real T) (real C) then 1 else 0)) [0..<C]"
    unfolding new_def by (rule start_requests_map_Start)
  then have shares: "start_requests new
      = map (\<lambda>i. int (T div C) + (if i < T mod C then 1 else 0)) [0..<C]"
    using pos by (simp add: requestsPerWorker_nat js_rem_nat)
  have len: "length (start_requests new) = C"
    by (simp add: shares)
  have "T mod C \<le> C" using pos by simp
  then have "sum_list (start_requests new) = int (T div C) * int C + int (T mod C)"
    unfolding shares by (rule sum_list_shares)
  also have "\<dots> = int (T div C * C + T mod C)"
    by (simp only: of_nat_add of_nat_mult)
  also have "\<dots> = int T"
    by (simp only: div_mult_mod_eq)
  finally have total: "sum_list (start_requests new) = int T" .
  have spread: "\<forall>a \<in> set (start_requests new). \<forall>b \<in> set (start_requests new). a - b \<le> 1"
    by (auto simp add: shares)
  from log shares len total spread
  show "\<exists>new.
        posted (spawnWorkers (real C) u (requestsPerWorker (real T) (real C))
                  (js_rem (real T) (real C)) rps 0 st) = posted st @ new
        \<and> start_requests new
            = map (\<lambda>i. int (T div C) + (if i < T mod C then 1 else 0)) [0..<C]
        \<and> length (start_requests new) = C
        \<and> sum_list (start_requests new) = int T
        \<and> (\<forall>a \<in> set (start_requests new). \<forall>b \<in> set (start_requests new). a - b \<le> 1)"
    by blast
qed

text \<open>
  Claim C6. For integers \<open>R \<ge> 1\<close> (target rate) and \<open>C \<ge> 1\<close> (concurrency) the per-worker
  rate is \<open>max 1 (R div C)\<close>, hence at least 1, and the estimated aggregate rate, the
  per-worker rate times \<open>C\<close>, is at most \<open>max R C\<close>.
\<close>

theorem perWorkerRps_floor_and_estimate:
  "1 \<le> R \<and> 1 \<le> C \<longrightarrow>
     perWorkerRps (real R) (real C) = max 1 (int (R div C))
     \<and> 1 \<le> perWorkerRps (real R) (real C)
     \<and> estimatedTotalRps (real R) (real C) = real (max 1 (R div C) * C)
     \<and> estimatedTotalRps (real R) (real C) \<le> real (max R C)"
proof
  assume pos: "1 \<le> R \<and> 1 \<le> C"
  have per: "perWorkerRps (real R) (real C) = max 1 (int (R div C))"
    by (simp add: perWorkerRps_def floor_divide_of_nat_eq)
  have per_nat: "perWorkerRps (real R) (real C) = int (max 1 (R div C))"
    by (simp add: per)
  have est: "estimatedTotalRps (real R) (real C) = real (max 1 (R div C) * C)"
    unfolding estimatedTotalRps_def per_nat by simp
  have "max 1 (R div C) * C \<le> max R C"
  proof (cases "R div C = 0")
    case True
    then show ?thesis by simp
  next
    case False
    then have "max 1 (R div C) = R div C" by simp
    moreover have "R div C * C \<le> R" by simp
    moreover have "R \<le> max R C" by simp
    ultimately show ?thesis by (simp only: order_trans)
  qed
  then have bound: "estimatedTotalRps (real R) (real C) \<le> real (max R C)"
    unfolding est by (simp only: of_nat_le_iff)
  from per est bound
  show "perWorkerRps (real R) (real C) = max 1 (int (R div C))
     \<and> 1 \<le> perWorkerRps (real R) (real C)
     \<and> estimatedTotalRps (real R) (real C) = real (max 1 (R div C) * C)
     \<and> estimatedTotalRps (real R) (real C) \<le> real (max R C)"
    by simp
qed


text \<open>
  Ten requests over three workers: the shares are 4, 3 and 3.
\<close>

theorem spawnWorkers_partition_exact_balanced_witness:
  "1 \<le> (10::nat) \<and> 1 \<le> (3::nat)
   \<and> start_requests (posted (spawnWorkers (real 3) (url idle_state)
         (requestsPerWorker (real 10) (real 3)) (js_rem (real 10) (real 3)) 1 0 idle_state))
       = [4, 3, 3]
   \<and> sum_list (start_requests (posted (spawnWorkers (real 3) (url idle_state)
         (requestsPerWorker (real 10) (real 3)) (js_rem (real 10) (real 3)) 1 0 idle_state)))
       = 10"
proof -
  have pos: "1 \<le> (10::nat) \<and> 1 \<le> (3::nat)" by simp
  have empty: "posted idle_state = []" by (simp add: idle_state_def)
  have shares: "map (\<lambda>i. int (10 div 3) + (if i < 10 mod 3 then 1 else 0)) [0..<3] = [4, 3, 3]"
    by (simp add: upt_rec)
  from pos spawnWorkers_partition_exact_balanced [of 10 3 "url idle_state" 1 idle_state]
  obtain new where
    "posted (spawnWorkers (real 3) (url idle_state) (requestsPerWorker (real 10) (real 3))
        (js_rem (real 10) (real 3)) 1 0 idle_state) = posted idle_state @ new"
    and "start_requests new = map (\<lambda>i. int (10 div 3) + (if i < 10 mod 3 then 1 else 0)) [0..<3]"
    and "sum_list (start_requests new) = int 10"
    by blast
  then show ?thesis
    using pos empty shares by simp
qed

text \<open>
  A target of 5 requests per second over 3 workers: 1 per worker, 3 in total.
\<close>

theorem perWorkerRps_floor_and_estimate_witness:
  "1 \<le> (5::nat) \<and> 1 \<le> (3::nat)
   \<and> perWorkerRps (real 5) (real 3) = 1
   \<and> estimatedTotalRps (real 5) (real 3) = 3
   \<and> estimatedTotalRps (real 5) (real 3) \<le> real (max 5 3)"
  using perWorkerRps_floor_and_estimate [of 5 3] by simp

lemma startTest_dispatches:
  assumes "url st \<noteq> []" and "\<not> running st"
  shows "\<exists>c trs rps.
          sanitize MAX_CONCURRENCY (concurrency st) = Val c \<and> 1 \<le> c \<and> c \<le> 500
          \<and> sanitize MAX_TOTAL_REQS (totalRequests st) = Val trs \<and> 1 \<le> trs \<and> trs \<le> 100000
          \<and> sanitize MAX_REQS_PER_SEC (targetRps st) = Val rps \<and> 1 \<le> rps \<and> rps \<le> 1000
          \<and> startTest False st = (Declined, st)
          \<and> startTest True st =
              (Started,
               spawnWorkers c (url st) (requestsPerWorker trs c) (js_rem trs c)
                 (perWorkerRps rps c) 0
                 (st\<lparr> rows := [], nextId := 0, summary := \<lparr> sent = 0, errors = 0 \<rparr>,
                      running := True, workersRef := [] \<rparr>))"
proof -
  obtain c where c: "sanitize MAX_CONCURRENCY (concurrency st) = Val c" "1 \<le> c" "c \<le> 500"
    using sanitize_Val [of MAX_CONCURRENCY "concurrency st"]
    by (auto simp add: MAX_CONCURRENCY_def)
  obtain trs where trs: "sanitize MAX_TOTAL_REQS (totalRequests st) = Val trs" "1 \<le> trs"
      "trs \<le> 100000"
    using sanitize_Val [of MAX_TOTAL_REQS "totalRequests st"]
    by (auto simp add: MAX_TOTAL_REQS_def)
  obtain rps where rps: "sanitize MAX_REQS_PER_SEC (targetRps st) = Val rps" "1 \<le> rps"
      "rps \<le> 1000"
    using sanitize_Val [of MAX_REQS_PER_SEC "targetRps st"]
    by (auto simp add: MAX_REQS_PER_SEC_def)
  have "startTest False st = (Declined, st)"
    using assms c(1) trs(1) rps(1) by (simp add: startTest_def)
  moreover have "startTest True st =
              (Started,
               spawnWorkers c (url st) (requestsPerWorker trs c) (js_rem trs c)
                 (perWorkerRps rps c) 0
                 (st\<lparr> rows := [], nextId := 0, summary := \<lparr> sent = 0, errors = 0 \<rparr>,
                      running := True, workersRef := [] \<rparr>))"
    using assms c(1) trs(1) rps(1) by (simp add: startTest_def)
  ultimately show ?thesis using c trs rps by blast
qed

text \<open>
  Claim C9. Sanitising a field against a cap of at least 1 always gives a finite
  number between 1 and the cap: a value above the cap (or \<open>+\<infinity>\<close>) becomes the cap, a value
  below 1 (or \<open>-\<infinity>\<close>) becomes 1, and a value in range is kept. \<^verbatim>\<open>startTest\<close> never turns a
  run down for its numeric fields: given a URL and no active run, it dispatches with
  concurrency in \<open>[1, 500]\<close>, total requests in \<open>[1, 100000]\<close> and target rate in \<open>[1, 1000]\<close>
  when the operator confirms, and only the operator's refusal stops it.
\<close>

theorem startTest_clamps_never_rejects:
  "(1 \<le> cap \<longrightarrow>
      (\<exists>v. sanitize cap x = Val v \<and> 1 \<le> v \<and> v \<le> real cap)
      \<and> (js_less (Val (real cap)) x \<longrightarrow> sanitize cap x = Val (real cap))
      \<and> (js_less x (Val 1) \<longrightarrow> sanitize cap x = Val 1)
      \<and> (1 \<le> a \<and> a \<le> real cap \<longrightarrow> sanitize cap (Val a) = Val a))
   \<and> (url st \<noteq> [] \<and> \<not> running st \<longrightarrow>
      (\<exists>c trs rps.
          sanitize MAX_CONCURRENCY (concurrency st) = Val c \<and> 1 \<le> c \<and> c \<le> 500
          \<and> sanitize MAX_TOTAL_REQS (totalRequests st) = Val trs \<and> 1 \<le> trs \<and> trs \<le> 100000
          \<and> sanitize MAX_REQS_PER_SEC (targetRps st) = Val rps \<and> 1 \<le> rps \<and> rps \<le> 1000
          \<and> startTest False st = (Declined, st)
          \<and> startTest True st =
              (Started,
               spawnWorkers c (url st) (requestsPerWorker trs c) (js_rem trs c)
                 (perWorkerRps rps c) 0
                 (st\<lparr> rows := [], nextId := 0, summary := \<lparr> sent = 0, errors = 0 \<rparr>,
                      running := True, workersRef := [] \<rparr>))))"
  using sanitize_clamp [of cap x a] startTest_dispatches [of st] by blast

text \<open>
  A concurrency of 100000, a negative total and a rate that is not a number: the run
  is dispatched all the same.
\<close>

theorem startTest_clamps_never_rejects_witness:
  "1 \<le> (500::nat)
   \<and> js_less (Val (real 500)) (Val 100000) \<and> sanitize 500 (Val 100000) = Val (real 500)
   \<and> js_less NegInf (Val 1) \<and> sanitize 500 NegInf = Val 1
   \<and> 1 \<le> (7::real) \<and> 7 \<le> real 500 \<and> sanitize 500 (Val 7) = Val 7
   \<and> url wild_state \<noteq> [] \<and> \<not> running wild_state
   \<and> fst (startTest True wild_state) = Started"
proof -
  have hyps: "1 \<le> (500::nat)" "js_less (Val (real 500)) (Val 100000)" "js_less NegInf (Val 1)"
    "1 \<le> (7::real) \<and> 7 \<le> real 500" "url wild_state \<noteq> [] \<and> \<not> running wild_state"
    by (simp_all add: wild_state_def idle_state_def)
  from hyps startTest_clamps_never_rejects [of 500 "Val 100000" 7 wild_state]
  have "sanitize 500 (Val 100000) = Val (real 500)" "sanitize 500 (Val 7) = Val 7"
    "fst (startTest True wild_state) = Started"
    by auto
  moreover from hyps startTest_clamps_never_rejects [of 500 NegInf 7 wild_state]
  have "sanitize 500 NegInf = Val 1"
    by blast
  ultimately show ?thesis using hyps by simp
qed


lemma start_rates_map_Start:
  "start_rates (map (\<lambda>k. (w k, Start (a k) u (f k) rps)) ks) = map (\<lambda>k. rps) ks"
  by (induction ks) simp_all

lemma startTest_Started_gate:
  assumes "startTest confirmed st = (Started, st')"
  shows "url st \<noteq> [] \<and> \<not> running st \<and> confirmed"
  using assms
  by (auto simp add: startTest_def split: if_splits jsnum.splits prod.splits)

lemma startTest_Started_commands:
  assumes "startTest confirmed st = (Started, st')"
  shows "\<exists>c trs rps new.
          sanitize MAX_CONCURRENCY (concurrency st) = Val c \<and> 1 \<le> c
          \<and> sanitize MAX_TOTAL_REQS (totalRequests st) = Val trs \<and> 1 \<le> trs
          \<and> sanitize MAX_REQS_PER_SEC (targetRps st) = Val rps \<and> 1 \<le> rps
          \<and> posted st' = posted st @ new
          \<and> (\<forall>r \<in> set (start_rates new). 1 \<le> r)
          \<and> (\<forall>n \<in> set (start_requests new). 0 \<le> n)"
proof -
  from startTest_Started_gate [OF assms]
  have gate: "url st \<noteq> []" "\<not> running st" and conf: "confirmed" by simp_all
  from startTest_dispatches [OF gate] obtain c trs rps where
    c: "sanitize MAX_CONCURRENCY (concurrency st) = Val c" "1 \<le> c"
    and trs: "sanitize MAX_TOTAL_REQS (totalRequests st) = Val trs" "1 \<le> trs"
    and rps: "sanitize MAX_REQS_PER_SEC (targetRps st) = Val rps" "1 \<le> rps"
    and run: "startTest True st =
              (Started,
               spawnWorkers c (url st) (requestsPerWorker trs c) (js_rem trs c)
                 (perWorkerRps rps c) 0
                 (st\<lparr> rows := [], nextId := 0, summary := \<lparr> sent = 0, errors = 0 \<rparr>,
                      running := True, workersRef := [] \<rparr>))"
    by blast
  define new where "new = map (\<lambda>k. (int k + 1,
        Start (int k + 1) (url st) (requestsPerWorker trs c + (if real k < js_rem trs c then 1 else 0))
          (perWorkerRps rps c))) [0..<nat \<lceil>c\<rceil>]"
  have st': "st' = spawnWorkers c (url st) (requestsPerWorker trs c) (js_rem trs c)
                 (perWorkerRps rps c) 0
                 (st\<lparr> rows := [], nextId := 0, summary := \<lparr> sent = 0, errors = 0 \<rparr>,
                      running := True, workersRef := [] \<rparr>)"
    using assms conf run by simp
  have log: "posted st' = posted st @ new"
    unfolding st' new_def by (simp add: spawnWorkers_posted)
  have "start_rates new = map (\<lambda>k. perWorkerRps rps c) [0..<nat \<lceil>c\<rceil>]"
    unfolding new_def by (rule start_rates_map_Start)
  then have rates: "\<forall>r \<in> set (start_rates new). 1 \<le> r"
    by (auto simp add: perWorkerRps_def)
  have "0 \<le> trs / c" using c(2) trs(2) by simp
  then have base: "0 \<le> requestsPerWorker trs c"
    by (simp add: requestsPerWorker_def)
  have "start_requests new =
      map (\<lambda>k. requestsPerWorker trs c + (if real k < js_rem trs c then 1 else 0)) [0..<nat \<lceil>c\<rceil>]"
    unfolding new_def by (rule start_requests_map_Start)
  then have counts: "\<forall>n \<in> set (start_requests new). 0 \<le> n"
    using base by auto
  from c trs rps log rates counts show ?thesis by blast
qed

text \<open>
  Claim C10. A field whose numeric conversion is \<^verbatim>\<open>NaN\<close> or 0 is sanitised to 1, under
  each of the three caps. Whatever the field, the sanitised value is a finite number
  of at least 1, so neither \<^verbatim>\<open>NaN\<close> nor a non-positive field goes into the partitioning
  or on to the workers: every start command of a dispatched run carries a rate of at
  least 1 and a share of the total that is not negative.
\<close>

theorem sanitize_NaN_or_zero_becomes_one:
  "(x = NaN \<or> x = Val 0 \<longrightarrow>
      or_one x = Val 1
      \<and> sanitize MAX_CONCURRENCY x = Val 1
      \<and> sanitize MAX_TOTAL_REQS x = Val 1
      \<and> sanitize MAX_REQS_PER_SEC x = Val 1)
   \<and> (1 \<le> cap \<longrightarrow> (\<exists>v. sanitize cap y = Val v \<and> 1 \<le> v))
   \<and> (startTest confirmed st = (Started, st') \<longrightarrow>
      (\<exists>c trs rps new.
          sanitize MAX_CONCURRENCY (concurrency st) = Val c \<and> 1 \<le> c
          \<and> sanitize MAX_TOTAL_REQS (totalRequests st) = Val trs \<and> 1 \<le> trs
          \<and> sanitize MAX_REQS_PER_SEC (targetRps st) = Val rps \<and> 1 \<le> rps
          \<and> posted st' = posted st @ new
          \<and> (\<forall>r \<in> set (start_rates new). 1 \<le> r)
          \<and> (\<forall>n \<in> set (start_requests new). 0 \<le> n)))"
proof -
  have one: "or_one x = Val 1
      \<and> sanitize MAX_CONCURRENCY x = Val 1
      \<and> sanitize MAX_TOTAL_REQS x = Val 1
      \<and> sanitize MAX_REQS_PER_SEC x = Val 1" if "x = NaN \<or> x = Val 0"
    using that
    by (auto simp add: sanitize_def or_one_def MAX_CONCURRENCY_def MAX_TOTAL_REQS_def
        MAX_REQS_PER_SEC_def)
  have fin: "\<exists>v. sanitize cap y = Val v \<and> 1 \<le> v" if "1 \<le> cap"
    using sanitize_Val [OF that, of y] by blast
  from one fin startTest_Started_commands [of confirmed st st'] show ?thesis
    by blast
qed

text \<open>
  A page whose three fields convert to 0, \<^verbatim>\<open>NaN\<close> and 0: one worker, one request, at
  one request per second.
\<close>

theorem sanitize_NaN_or_zero_becomes_one_witness:
  "sanitize MAX_CONCURRENCY NaN = Val 1
   \<and> sanitize MAX_TOTAL_REQS (Val 0) = Val 1
   \<and> sanitize MAX_REQS_PER_SEC NaN = Val 1
   \<and> 1 \<le> (500::nat)
   \<and> (\<exists>v. sanitize 500 NegInf = Val v \<and> 1 \<le> v)
   \<and> startTest True zero_state = (Started, snd (startTest True zero_state))
   \<and> start_rates (posted (snd (startTest True zero_state))) = [1]
   \<and> start_requests (posted (snd (startTest True zero_state))) = [1]"
proof -
  have fields: "sanitize MAX_CONCURRENCY (concurrency zero_state) = Val 1"
    "sanitize MAX_TOTAL_REQS (totalRequests zero_state) = Val 1"
    "sanitize MAX_REQS_PER_SEC (targetRps zero_state) = Val 1"
    using sanitize_NaN_or_zero_becomes_one [of "Val 0" 500 NegInf True zero_state "snd (startTest True zero_state)"]
      sanitize_NaN_or_zero_becomes_one [of NaN 500 NegInf True zero_state "snd (startTest True zero_state)"]
    by (simp_all add: zero_state_def idle_state_def)
  have started: "startTest True zero_state = (Started, snd (startTest True zero_state))"
    using fields by (simp add: startTest_def zero_state_def idle_state_def)
  have log: "posted (snd (startTest True zero_state))
      = [(1, Start 1 (url zero_state) 1 1)]"
    using fields
    by (simp add: startTest_def spawnWorkers_posted requestsPerWorker_def js_rem_def
        perWorkerRps_def zero_state_def idle_state_def)
  show ?thesis
    using started log
      sanitize_NaN_or_zero_becomes_one [of NaN 500 NegInf True zero_state "snd (startTest True zero_state)"]
      sanitize_NaN_or_zero_becomes_one [of "Val 0" 500 NegInf True zero_state "snd (startTest True zero_state)"]
    by simp
qed

section \<open>The worker loop\<close>

lemma posted_events_append:
  "posted_events (xs @ ys) = posted_events xs @ posted_events ys"
  by (induction xs rule: posted_events.induct) simp_all

lemma posted_events_pacing: "posted_events (pacing interval s e) = []"
  by (simp add: pacing_def Let_def)

lemma posted_events_yield: "posted_events (yield_every_50 n) = []"
  by (simp add: yield_every_50_def)

lemma worker_loop_step:
  assumes "int i < requests" and "\<not> stopped_now (env i)"
  shows "worker_loop env wid interval requests i n =
     RowEvent (make_row wid (env i))
       # pacing interval (t_start (env i)) (t_loop (env i))
       @ yield_every_50 (Suc n)
       @ worker_loop env wid interval requests (Suc i) (Suc n)"
  using assms by (subst worker_loop.simps) simp

lemma worker_loop_done:
  assumes "\<not> int i < requests"
  shows "worker_loop env wid interval requests i n = [DoneEvent wid n]"
  using assms by (subst worker_loop.simps) simp

lemma worker_loop_posts:
  assumes "\<forall>k. i \<le> k \<and> k < m \<longrightarrow> \<not> stopped_now (env k)" and "i \<le> m"
  shows "posted_events (worker_loop env wid interval (int m) i n) =
     map (\<lambda>k. RowEvent (make_row wid (env k))) [i..<m] @ [DoneEvent wid (n + (m - i))]"
  using assms
proof (induction "m - i" arbitrary: i n)
  case 0
  then have "\<not> int i < int m" by simp
  then show ?case using 0 by (simp add: worker_loop_done)
next
  case (Suc d)
  then have less: "i < m" by simp
  then have run: "\<not> stopped_now (env i)" using Suc.prems by simp
  have rest: "posted_events (worker_loop env wid interval (int m) (Suc i) (Suc n)) =
     map (\<lambda>k. RowEvent (make_row wid (env k))) [Suc i..<m] @ [DoneEvent wid (Suc n + (m - Suc i))]"
    using Suc.hyps Suc.prems less by (intro Suc.hyps(1)) auto
  have "[i..<m] = i # [Suc i..<m]" using less by (rule upt_conv_Cons)
  moreover have "Suc n + (m - Suc i) = n + (m - i)" using less by simp
  ultimately show ?case
    using less run rest
    by (simp add: worker_loop_step posted_events_append posted_events_pacing posted_events_yield)
qed

text \<open>
  Claim C8. A worker started with \<open>m\<close> requests that never sees the stop flag set
  posts exactly \<open>m\<close> rows, one per iteration and in order, followed by exactly one
  done message carrying \<open>m\<close>; nothing else is posted. A rejected fetch gives a row with
  \<open>error\<close> set and no status code, and the loop goes on to the next iteration all the
  same. (Every fetch is taken to settle: an iteration has an outcome.)
\<close>

theorem worker_one_row_per_request_then_done:
  "(\<forall>i. i < m \<longrightarrow> \<not> stopped_now (env i)) \<longrightarrow>
     posted_events (worker_onmessage env (Start wid u (int m) rps))
       = map (\<lambda>i. RowEvent (make_row wid (env i))) [0..<m] @ [DoneEvent wid m]
     \<and> (\<forall>i msg. outcome (env i) = Failed msg \<longrightarrow>
          error (make_row wid (env i)) \<and> statusCode (make_row wid (env i)) = None
          \<and> workerId (make_row wid (env i)) = wid)"
proof
  assume never: "\<forall>i. i < m \<longrightarrow> \<not> stopped_now (env i)"
  then have "\<forall>k. 0 \<le> k \<and> k < m \<longrightarrow> \<not> stopped_now (env k)" by simp
  then have "posted_events (worker_loop env wid (intervalMs rps) (int m) 0 0) =
     map (\<lambda>k. RowEvent (make_row wid (env k))) [0..<m] @ [DoneEvent wid (0 + (m - 0))]"
    by (rule worker_loop_posts) simp
  then have trace: "posted_events (worker_onmessage env (Start wid u (int m) rps))
       = map (\<lambda>i. RowEvent (make_row wid (env i))) [0..<m] @ [DoneEvent wid m]"
    by simp
  have failed: "\<forall>i msg. outcome (env i) = Failed msg \<longrightarrow>
          error (make_row wid (env i)) \<and> statusCode (make_row wid (env i)) = None
          \<and> workerId (make_row wid (env i)) = wid"
    by (simp add: make_row_def)
  from trace failed
  show "posted_events (worker_onmessage env (Start wid u (int m) rps))
       = map (\<lambda>i. RowEvent (make_row wid (env i))) [0..<m] @ [DoneEvent wid m]
     \<and> (\<forall>i msg. outcome (env i) = Failed msg \<longrightarrow>
          error (make_row wid (env i)) \<and> statusCode (make_row wid (env i)) = None
          \<and> workerId (make_row wid (env i)) = wid)"
    by blast
qed

text \<open>
  Five requests that all fail with a network error: five error rows and one done
  message with a count of 5.
\<close>

theorem worker_one_row_per_request_then_done_witness:
  "\<not> stopped_now (failing_env 0) \<and> \<not> stopped_now (failing_env 4)
   \<and> posted_events (worker_onmessage failing_env (Start 7 ''https://staging.example.com/'' (int 5) 1))
       = [RowEvent net_error_row, RowEvent net_error_row, RowEvent net_error_row,
          RowEvent net_error_row, RowEvent net_error_row, DoneEvent 7 5]
   \<and> error net_error_row \<and> statusCode net_error_row = None"
proof -
  have never: "\<forall>i. i < 5 \<longrightarrow> \<not> stopped_now (failing_env i)"
    by (simp add: failing_env_def)
  have row: "make_row 7 (failing_env i) = net_error_row" for i
    by (simp add: make_row_def failing_env_def net_error_row_def)
  have "map (\<lambda>i. RowEvent (make_row 7 (failing_env i))) [0..<5]
      = [RowEvent net_error_row, RowEvent net_error_row, RowEvent net_error_row,
          RowEvent net_error_row, RowEvent net_error_row]"
    by (simp add: row upt_rec)
  then show ?thesis
    using never
      worker_one_row_per_request_then_done
        [of 5 failing_env 7 "''https://staging.example.com/''" 1]
    by (simp add: failing_env_def net_error_row_def)
qed

text \<open>
  Claim C7. With \<open>intervalMs = max 1 (1000 div max 1 rps)\<close>, the time the worker sleeps
  after a request that started at \<open>s\<close>, the clock reading \<open>e\<close> when the row has been posted,
  is \<open>max 0 (intervalMs - (e - s))\<close>: never negative, and nothing at all when the
  iteration took \<open>intervalMs\<close> or longer. The occasional \<^verbatim>\<open>sleep(0)\<close> adds no time. Each
  iteration of the loop paces with its own two clock readings only, so a slow
  request is not made up for later.
\<close>

theorem pacing_wait_formula_no_debt:
  "slept_ms (pacing (intervalMs rps) s e) = max 0 (max 1 (1000 div max 1 rps) - (e - s))
   \<and> 0 \<le> slept_ms (pacing (intervalMs rps) s e)
   \<and> 1 \<le> intervalMs rps
   \<and> slept_ms (yield_every_50 n) = 0
   \<and> (intervalMs rps \<le> e - s \<longrightarrow> pacing (intervalMs rps) s e = [])
   \<and> (e - s < intervalMs rps \<longrightarrow> pacing (intervalMs rps) s e = [Sleep (intervalMs rps - (e - s))])
   \<and> (int i < requests \<and> \<not> stopped_now (env i) \<longrightarrow>
        worker_loop env wid (intervalMs rps) requests i n =
          RowEvent (make_row wid (env i))
            # pacing (intervalMs rps) (t_start (env i)) (t_loop (env i))
            @ yield_every_50 (Suc n)
            @ worker_loop env wid (intervalMs rps) requests (Suc i) (Suc n))"
proof -
  have wait: "slept_ms (pacing (intervalMs rps) s e) = max 0 (max 1 (1000 div max 1 rps) - (e - s))"
    by (auto simp add: pacing_def intervalMs_def Let_def)
  have pos: "1 \<le> intervalMs rps"
    by (simp add: intervalMs_def)
  have yield: "slept_ms (yield_every_50 n) = 0"
    by (simp add: yield_every_50_def)
  have late: "pacing (intervalMs rps) s e = []" if "intervalMs rps \<le> e - s"
    using that by (simp add: pacing_def Let_def)
  have early: "pacing (intervalMs rps) s e = [Sleep (intervalMs rps - (e - s))]"
    if "e - s < intervalMs rps"
    using that by (simp add: pacing_def Let_def)
  have step: "worker_loop env wid (intervalMs rps) requests i n =
          RowEvent (make_row wid (env i))
            # pacing (intervalMs rps) (t_start (env i)) (t_loop (env i))
            @ yield_every_50 (Suc n)
            @ worker_loop env wid (intervalMs rps) requests (Suc i) (Suc n)"
    if "int i < requests \<and> \<not> stopped_now (env i)"
    using that by (simp add: worker_loop_step)
  from wait pos yield late early step show ?thesis
    by (simp del: slept_ms.simps)
qed

text \<open>
  At 4 requests per second the interval is 250 ms: an iteration of 900 ms is not
  followed by a sleep, one of 4 ms by a sleep of 246 ms.
\<close>

theorem pacing_wait_formula_no_debt_witness:
  "intervalMs 4 = 250
   \<and> intervalMs 4 \<le> 1900 - 1000 \<and> pacing (intervalMs 4) 1000 1900 = []
   \<and> (2004::int) - 2000 < intervalMs 4 \<and> pacing (intervalMs 4) 2000 2004 = [Sleep 246]
   \<and> int 1 < 5 \<and> \<not> stopped_now (failing_env 1)
   \<and> worker_loop failing_env 7 (intervalMs 4) 5 1 1 =
        RowEvent (make_row 7 (failing_env 1)) # Sleep 246
          # worker_loop failing_env 7 (intervalMs 4) 5 (Suc 1) (Suc 1)"
proof -
  have iv: "intervalMs 4 = 250" by (simp add: intervalMs_def)
  have late: "intervalMs 4 \<le> 1900 - 1000" by (simp add: iv)
  have early: "(2004::int) - 2000 < intervalMs 4" by (simp add: iv)
  have live: "int 1 < 5 \<and> \<not> stopped_now (failing_env 1)"
    by (simp add: failing_env_def)
  have clock: "t_start (failing_env 1) = 1000" "t_loop (failing_env 1) = 1004"
    by (simp_all add: failing_env_def)
  have p: "pacing (intervalMs 4) 1000 1004 = [Sleep 246]"
    by (simp add: iv pacing_def Let_def)
  have y: "yield_every_50 (Suc 1) = []" by (simp add: yield_every_50_def)
  from late pacing_wait_formula_no_debt [where rps = 4 and s = 1000 and e = 1900]
  have a: "pacing (intervalMs 4) 1000 1900 = []" by blast
  from early pacing_wait_formula_no_debt [where rps = 4 and s = 2000 and e = 2004]
  have "pacing (intervalMs 4) 2000 2004 = [Sleep (intervalMs 4 - (2004 - 2000))]" by blast
  then have b: "pacing (intervalMs 4) 2000 2004 = [Sleep 246]" by (simp add: iv)
  from live
    pacing_wait_formula_no_debt
      [where rps = 4 and i = 1 and requests = 5 and env = failing_env and wid = 7 and n = 1]
  have "worker_loop failing_env 7 (intervalMs 4) 5 1 1 =
          RowEvent (make_row 7 (failing_env 1))
            # pacing (intervalMs 4) (t_start (failing_env 1)) (t_loop (failing_env 1))
            @ yield_every_50 (Suc 1)
            @ worker_loop failing_env 7 (intervalMs 4) 5 (Suc 1) (Suc 1)"
    by blast
  then have c: "worker_loop failing_env 7 (intervalMs 4) 5 1 1 =
        RowEvent (make_row 7 (failing_env 1)) # Sleep 246
          # worker_loop failing_env 7 (intervalMs 4) 5 (Suc 1) (Suc 1)"
    by (simp only: clock p y append_Cons append_Nil)
  from iv late early live a b c show ?thesis by blast
qed

section \<open>The CSV export and its reader\<close>

lemma digit_cases:
  "d < (10::nat) \<Longrightarrow>
   d = 0 \<or> d = 1 \<or> d = 2 \<or> d = 3 \<or> d = 4 \<or> d = 5 \<or> d = 6 \<or> d = 7 \<or> d = 8 \<or> d = 9"
  by arith

lemma digit_val_digit_char: "d < 10 \<Longrightarrow> digit_val (digit_char d) = Some d"
  by (drule digit_cases) (auto simp add: digit_char_def digit_val_def)

lemma digit_char_in_digits: "d < 10 \<Longrightarrow> digit_char d \<in> set ''0123456789''"
  by (drule digit_cases) (auto simp add: digit_char_def)

lemma read_digits_snoc:
  "read_digits acc (xs @ [c]) =
     (case read_digits acc xs of
        None \<Rightarrow> None
      | Some a \<Rightarrow> (case digit_val c of None \<Rightarrow> None | Some d \<Rightarrow> Some (10 * a + d)))"
  by (induction xs arbitrary: acc) (auto split: option.splits)

lemma read_digits_show_nat: "read_digits 0 (show_nat n) = Some n"
proof (induction n rule: show_nat.induct)
  case (1 n)
  show ?case
  proof (cases "n < 10")
    case True
    then show ?thesis
      by (subst show_nat.simps) (simp add: digit_val_digit_char)
  next
    case False
    then have "read_digits 0 (show_nat (n div 10)) = Some (n div 10)"
      by (rule "1.IH")
    moreover have "digit_val (digit_char (n mod 10)) = Some (n mod 10)"
      by (rule digit_val_digit_char) simp
    ultimately show ?thesis using False
      by (subst show_nat.simps) (simp add: read_digits_snoc)
  qed
qed

lemma show_nat_digits: "set (show_nat n) \<subseteq> set ''0123456789''"
proof (induction n rule: show_nat.induct)
  case (1 n)
  show ?case
  proof (cases "n < 10")
    case True
    then have "digit_char n \<in> set ''0123456789''" by (rule digit_char_in_digits)
    with True show ?thesis by (subst show_nat.simps) simp
  next
    case False
    then have "set (show_nat (n div 10)) \<subseteq> set ''0123456789''" by (rule "1.IH")
    moreover have "digit_char (n mod 10) \<in> set ''0123456789''"
      by (rule digit_char_in_digits) simp
    ultimately show ?thesis using False by (subst show_nat.simps) simp
  qed
qed

lemma show_nat_not_Nil: "show_nat n \<noteq> []"
  by (subst show_nat.simps) simp

lemma read_nat_show_nat: "read_nat (show_nat n) = Some n"
  by (simp add: read_nat_def show_nat_not_Nil read_digits_show_nat)

lemma read_int_show_int: "read_int (show_int i) = Some i"
proof (cases "i < 0")
  case True
  then show ?thesis
    by (simp add: read_int_def show_int_def read_nat_show_nat)
next
  case False
  obtain c cs where cs: "show_nat (nat i) = c # cs"
    using show_nat_not_Nil [of "nat i"] by (cases "show_nat (nat i)") auto
  then have "c \<in> set ''0123456789''"
    using show_nat_digits [of "nat i"] by auto
  then have "c \<noteq> CHR ''-''" by auto
  then have "read_int (show_nat (nat i)) = map_option int (read_nat (show_nat (nat i)))"
    using cs by (simp add: read_int_def)
  then show ?thesis using False
    by (simp add: show_int_def read_nat_show_nat)
qed

lemma plain_text_show_int: "plain_text (show_int i)"
proof -
  have "\<forall>c \<in> set (show_nat n). c \<noteq> CHR '','' \<and> c \<noteq> CHR 0x0A \<and> c \<noteq> CHR 0x22" for n
    using show_nat_digits [of n] by auto
  then show ?thesis
    by (simp add: plain_text_def show_int_def list_all_iff)
qed

lemma show_int_not_Nil: "show_int i \<noteq> []"
  by (simp add: show_int_def show_nat_not_Nil)

lemma scan_plain:
  "plain_text s \<Longrightarrow>
   csv_scan Plain fld flds recs (s @ rest) = csv_scan Plain (fld @ s) flds recs rest"
  by (induction s arbitrary: fld) (simp_all add: plain_text_def)

lemma scan_quoted:
  "csv_scan Quoted fld flds recs (escape_quotes s @ rest) = csv_scan Quoted (fld @ s) flds recs rest"
  by (induction s arbitrary: fld) simp_all


lemma plain_text_statusCode_text: "plain_text (statusCode_text s)"
  using plain_text_show_int
  by (simp add: statusCode_text_def plain_text_def split: option.splits)

lemma plain_text_timeMs_text: "plain_text (timeMs_text t)"
  using plain_text_show_int by (simp add: timeMs_text_def plain_text_def)

lemma scan_comma:
  "csv_scan Plain fld flds recs (CHR '','' # rest) = csv_scan Plain [] (flds @ [fld]) recs rest"
  by simp

lemma scan_plain_field:
  assumes "plain_text s"
  shows "csv_scan Plain [] flds recs (s @ CHR '','' # rest) = csv_scan Plain [] (flds @ [s]) recs rest"
  using scan_plain [OF assms, of "[]" flds recs "CHR '','' # rest"] by simp

lemma scan_quoted_field:
  "csv_scan Plain [] flds recs (CHR 0x22 # escape_quotes s @ CHR 0x22 # CHR '','' # rest)
     = csv_scan Plain [] (flds @ [s]) recs rest"
  using scan_quoted [of "[]" flds recs s "CHR 0x22 # CHR '','' # rest"] by simp

lemma csv_line_unfold:
  "csv_line r @ rest =
     timestamp r @ CHR '','' # (show_int (workerId r) @ CHR '','' #
       (statusCode_text (statusCode r) @ CHR '','' # (timeMs_text (timeMs r) @ CHR '','' #
         (CHR 0x22 # escape_quotes (snippet r) @ CHR 0x22 # CHR '','' #
            ((if error r then ''1'' else ''0'') @ rest)))))"
  by (simp add: csv_line_def)

lemma scan_line:
  assumes "plain_text (timestamp r)"
  shows "csv_scan Plain [] [] recs (csv_line r @ rest)
     = csv_scan Plain (if error r then ''1'' else ''0'')
         [timestamp r, show_int (workerId r), statusCode_text (statusCode r),
          timeMs_text (timeMs r), snippet r] recs rest"
proof -
  have flag: "plain_text (if error r then ''1'' else ''0'')"
    by (simp add: plain_text_def)
  show ?thesis
    unfolding csv_line_unfold
    by (simp only: scan_plain_field [OF assms] scan_plain_field [OF plain_text_show_int]
        scan_plain_field [OF plain_text_statusCode_text]
        scan_plain_field [OF plain_text_timeMs_text] scan_quoted_field
        scan_plain [OF flag] append_Nil append_Cons)
qed

lemma scan_lines:
  assumes "\<forall>r \<in> set rs. plain_text (timestamp r)"
  shows "csv_scan Plain fld flds recs (concat (map (\<lambda>r. CHR 0x0A # csv_line r) rs))
     = Some (recs @ [flds @ [fld]] @ map row_fields rs)"
  using assms
proof (induction rs arbitrary: fld flds recs)
  case Nil
  then show ?case by simp
next
  case (Cons r rs)
  then have ts: "plain_text (timestamp r)" and rest: "\<forall>r \<in> set rs. plain_text (timestamp r)"
    by simp_all
  have "csv_scan Plain fld flds recs (concat (map (\<lambda>r. CHR 0x0A # csv_line r) (r # rs)))
      = csv_scan Plain [] [] (recs @ [flds @ [fld]])
          (csv_line r @ concat (map (\<lambda>r. CHR 0x0A # csv_line r) rs))"
    by simp
  also have "\<dots> = csv_scan Plain (if error r then ''1'' else ''0'')
         [timestamp r, show_int (workerId r), statusCode_text (statusCode r),
          timeMs_text (timeMs r), snippet r] (recs @ [flds @ [fld]])
         (concat (map (\<lambda>r. CHR 0x0A # csv_line r) rs))"
    by (rule scan_line [OF ts])
  also have "\<dots> = Some ((recs @ [flds @ [fld]]) @ [row_fields r] @ map row_fields rs)"
    using Cons.IH [OF rest] by (simp add: row_fields_def)
  finally show ?case by simp
qed

lemma join_lines:
  "join sep (x # xs) = x @ concat (map (\<lambda>l. sep @ l) xs)"
  by (induction xs arbitrary: x) simp_all

lemma exportCSV_lines:
  "exportCSV rs = csv_header @ concat (map (\<lambda>r. CHR 0x0A # csv_line r) (rev rs))"
  by (simp add: exportCSV_def join_lines comp_def)

lemma scan_header:
  "csv_scan Plain [] [] [] (csv_header @ rest)
     = csv_scan Plain ''error'' [''timestamp'', ''workerId'', ''statusCode'', ''timeMs'', ''snippet''] [] rest"
  by (simp add: csv_header_def)

lemma read_row_fields:
  assumes "timeMs r \<noteq> 0" and "statusCode r \<noteq> Some 0"
  shows "read_row (row_fields r) = Some r"
proof -
  have wid: "read_int (show_int (workerId r)) = Some (workerId r)"
    by (rule read_int_show_int)
  have tm: "read_int (timeMs_text (timeMs r)) = Some (timeMs r)"
    using assms(1) by (simp add: timeMs_text_def read_int_show_int)
  have sc: "(if statusCode_text (statusCode r) = [] then Some None
             else map_option Some (read_int (statusCode_text (statusCode r))))
            = Some (statusCode r)"
    using assms(2)
    by (cases "statusCode r") (simp_all add: statusCode_text_def read_int_show_int show_int_not_Nil)
  have er: "read_bool (if error r then ''1'' else ''0'') = Some (error r)"
    by (simp add: read_bool_def)
  show ?thesis
    by (simp add: read_row_def row_fields_def wid tm sc er)
qed

lemma read_rows_fields:
  assumes "\<forall>r \<in> set rs. timeMs r \<noteq> 0 \<and> statusCode r \<noteq> Some 0"
  shows "read_rows (map row_fields rs) = Some rs"
  using assms by (induction rs) (simp_all add: read_row_fields)

lemma reparse_exportCSV:
  assumes "\<forall>r \<in> set rs. plain_text (timestamp r) \<and> timeMs r \<noteq> 0 \<and> statusCode r \<noteq> Some 0"
  shows "reparse_csv (exportCSV rs) = Some (rev rs)"
proof -
  have ts: "\<forall>r \<in> set (rev rs). plain_text (timestamp r)"
    and nz: "\<forall>r \<in> set (rev rs). timeMs r \<noteq> 0 \<and> statusCode r \<noteq> Some 0"
    using assms by simp_all
  have "csv_scan Plain [] [] [] (exportCSV rs)
      = Some ([] @ [[''timestamp'', ''workerId'', ''statusCode'', ''timeMs'', ''snippet''] @ [''error'']]
              @ map row_fields (rev rs))"
    unfolding exportCSV_lines scan_header by (rule scan_lines [OF ts])
  then show ?thesis
    by (simp add: reparse_csv_def read_rows_fields [OF nz])
qed


lemma show_int_small:
  "show_int 1 = ''1''" "show_int 2 = ''2''" "show_int 3 = ''3''" "show_int 12 = ''12''"
  "show_int 35 = ''35''" "show_int 200 = ''200''" "show_int 404 = ''404''"
  by (simp_all add: show_int_def show_nat.simps digit_char_def)

lemma escape_quotes_append:
  "escape_quotes (a @ b) = escape_quotes a @ escape_quotes b"
  by (induction a) simp_all

text \<open>
  Claim C2 as stated fails. The header names the second column \<open>workerId\<close>, not
  \<open>unitId\<close>. A row whose request took 0 ms is written with an empty \<open>timeMs\<close> field, so
  reading the file back does not give the row again. And a status of 0 is written
  like \<^verbatim>\<open>null\<close>: two buffers that differ export the same file, so no reader can tell
  them apart.
\<close>

theorem exportCSV_header_and_zero_timeMs:
  "csv_header \<noteq> ''timestamp,unitId,statusCode,timeMs,snippet,error''
   \<and> exportCSV [zero_ms_row]
       = ''timestamp,workerId,statusCode,timeMs,snippet,error'' @ [CHR 0x0A]
         @ ''2024-05-01T10:00:02.000Z,1,200,,'' @ [CHR 0x22] @ ''ok'' @ [CHR 0x22] @ '',0''
   \<and> reparse_csv (exportCSV [zero_ms_row]) \<noteq> Some [zero_ms_row]
   \<and> exportCSV [failed_row] = exportCSV [status_zero_row]
   \<and> failed_row \<noteq> status_zero_row"
proof -
  have header: "csv_header \<noteq> ''timestamp,unitId,statusCode,timeMs,snippet,error''"
    by (simp add: csv_header_def)
  have content: "exportCSV [zero_ms_row]
       = ''timestamp,workerId,statusCode,timeMs,snippet,error'' @ [CHR 0x0A]
         @ ''2024-05-01T10:00:02.000Z,1,200,,'' @ [CHR 0x22] @ ''ok'' @ [CHR 0x22] @ '',0''"
    by (simp add: exportCSV_def csv_header_def csv_line_def zero_ms_row_def statusCode_text_def
        timeMs_text_def show_int_small)
  have "reparse_csv (exportCSV [zero_ms_row]) = None"
    unfolding content
    by (simp add: reparse_csv_def read_row_def read_int_def read_nat_def digit_val_def
        read_bool_def)
  then have reread: "reparse_csv (exportCSV [zero_ms_row]) \<noteq> Some [zero_ms_row]"
    by simp
  have same: "exportCSV [failed_row] = exportCSV [status_zero_row]"
    by (simp add: exportCSV_def csv_line_def failed_row_def status_zero_row_def
        statusCode_text_def)
  have differ: "failed_row \<noteq> status_zero_row"
    by (simp add: failed_row_def status_zero_row_def)
  from header content reread same differ show ?thesis by blast
qed

text \<open>
  Claim C2, amended. The export is the header
  \<open>timestamp,workerId,statusCode,timeMs,snippet,error\<close> followed by one line per buffered
  row, oldest first, each after a line feed; a line holds the time stamp, the worker
  id, the status (empty for \<^verbatim>\<open>null\<close>), the elapsed time, the snippet in double quotes
  with every double quote doubled, and the error flag as 1 or 0. When every row has
  a time stamp without comma, double quote or line feed, a non-zero elapsed time and
  a status that is \<^verbatim>\<open>null\<close> or not zero, reading the file back gives as many rows as
  were buffered, equal to the originals, oldest first.
\<close>

theorem exportCSV_layout_and_round_trip:
  "csv_header = ''timestamp,workerId,statusCode,timeMs,snippet,error''
   \<and> exportCSV rs = csv_header @ concat (map (\<lambda>r. CHR 0x0A # csv_line r) (rev rs))
   \<and> csv_line r =
       timestamp r @ '','' @ show_int (workerId r) @ '','' @ statusCode_text (statusCode r)
         @ '','' @ timeMs_text (timeMs r) @ '','' @ [CHR 0x22] @ escape_quotes (snippet r)
         @ [CHR 0x22] @ '','' @ (if error r then ''1'' else ''0'')
   \<and> statusCode_text None = []
   \<and> escape_quotes (a @ [CHR 0x22] @ b) = escape_quotes a @ [CHR 0x22, CHR 0x22] @ escape_quotes b
   \<and> ((\<forall>r \<in> set rs. plain_text (timestamp r) \<and> timeMs r \<noteq> 0 \<and> statusCode r \<noteq> Some 0) \<longrightarrow>
        reparse_csv (exportCSV rs) = Some (rev rs) \<and> length (rev rs) = length rs)"
  using reparse_exportCSV [of rs]
  by (simp add: csv_header_def exportCSV_lines csv_line_def statusCode_text_def
      escape_quotes_append)

text \<open>
  Two rows, the newer with quotes and a comma in its snippet: the file reads back
  as the two rows, and the snippet's quotes are doubled on the line.
\<close>

theorem exportCSV_layout_and_round_trip_witness:
  "plain_text (timestamp quoted_row) \<and> timeMs quoted_row \<noteq> 0 \<and> statusCode quoted_row \<noteq> Some 0
   \<and> plain_text (timestamp ok_row) \<and> timeMs ok_row \<noteq> 0 \<and> statusCode ok_row \<noteq> Some 0
   \<and> reparse_csv (exportCSV [quoted_row, ok_row]) = Some [ok_row, quoted_row]
   \<and> csv_line quoted_row =
       ''2024-05-01T10:00:03.000Z,12,404,35,'' @ [CHR 0x22] @ ''{'' @ [CHR 0x22, CHR 0x22] @ ''a''
         @ [CHR 0x22, CHR 0x22] @ '': '' @ [CHR 0x22, CHR 0x22] @ ''b,c'' @ [CHR 0x22, CHR 0x22]
         @ ''}'' @ [CHR 0x22] @ '',1''"
proof -
  have hyps: "plain_text (timestamp quoted_row) \<and> timeMs quoted_row \<noteq> 0
      \<and> statusCode quoted_row \<noteq> Some 0
      \<and> plain_text (timestamp ok_row) \<and> timeMs ok_row \<noteq> 0 \<and> statusCode ok_row \<noteq> Some 0"
    by (simp add: quoted_row_def ok_row_def plain_text_def)
  then have all: "\<forall>r \<in> set [quoted_row, ok_row].
      plain_text (timestamp r) \<and> timeMs r \<noteq> 0 \<and> statusCode r \<noteq> Some 0"
    by simp
  have fields: "timestamp quoted_row = ''2024-05-01T10:00:03.000Z''" "workerId quoted_row = 12"
    "statusCode quoted_row = Some 404" "timeMs quoted_row = 35" "error quoted_row"
    "snippet quoted_row = ''{'' @ [CHR 0x22] @ ''a'' @ [CHR 0x22] @ '': '' @ [CHR 0x22] @ ''b,c''
        @ [CHR 0x22] @ ''}''"
    by (simp_all add: quoted_row_def)
  note inst =
    exportCSV_layout_and_round_trip
      [where rs = "[quoted_row, ok_row]" and r = quoted_row and a = "[]" and b = "[]"]
  from all inst
  have "reparse_csv (exportCSV [quoted_row, ok_row]) = Some (rev [quoted_row, ok_row])"
    by blast
  then have reread: "reparse_csv (exportCSV [quoted_row, ok_row]) = Some [ok_row, quoted_row]"
    by simp
  from inst
  have line: "csv_line quoted_row =
       timestamp quoted_row @ '','' @ show_int (workerId quoted_row) @ '',''
         @ statusCode_text (statusCode quoted_row)
         @ '','' @ timeMs_text (timeMs quoted_row) @ '','' @ [CHR 0x22]
         @ escape_quotes (snippet quoted_row)
         @ [CHR 0x22] @ '','' @ (if error quoted_row then ''1'' else ''0'')"
    by blast
  have "csv_line quoted_row =
       ''2024-05-01T10:00:03.000Z,12,404,35,'' @ [CHR 0x22] @ ''{'' @ [CHR 0x22, CHR 0x22] @ ''a''
         @ [CHR 0x22, CHR 0x22] @ '': '' @ [CHR 0x22, CHR 0x22] @ ''b,c'' @ [CHR 0x22, CHR 0x22]
         @ ''}'' @ [CHR 0x22] @ '',1''"
    by (simp add: line fields statusCode_text_def timeMs_text_def show_int_small)
  with hyps reread show ?thesis by blast
qed

end
